theory Spec2Isabelle
  imports Main "HOL-Library.Word"
begin

section \<open>The subscription store of pkg/rid/cockroach/subscriptions.go\<close>

text \<open>
  The Go file is a thin layer over one relation, \<^verbatim>\<open>subscriptions\<close>: every method builds
  one SQL statement, hands it to the embedded \<^verbatim>\<open>Queryable\<close> and maps the rows that come
  back to \<^verbatim>\<open>Subscription\<close> values. The embedding keeps that shape. The relation is a
  list of rows, each SQL statement of the file is a function on that list, and every
  method is a function from the store to a result and the store afterwards.
\<close>

subsection \<open>Data\<close>

type_synonym timestamp = int
type_synonym ID = string
type_synonym Owner = string

text \<open>
  \<^verbatim>\<open>s2.CellID\<close> is a \<^verbatim>\<open>uint64\<close>; the column \<^verbatim>\<open>cells\<close> holds 64-bit integers that Go
  reads and writes as \<^verbatim>\<open>int64\<close>. Both are 64-bit words, and the conversions
  \<^verbatim>\<open>int64(cell)\<close> and \<^verbatim>\<open>s2.CellID(id)\<close> keep all 64 bits.
\<close>

type_synonym CellID = "64 word"
type_synonym int64 = "64 word"

definition int64 :: "CellID \<Rightarrow> int64" where
  "int64 cell = ucast cell"

definition CellID :: "int64 \<Rightarrow> CellID" where
  "CellID v = ucast v"

text \<open>
  Errors of the file: \<^verbatim>\<open>sql.ErrNoRows\<close>, the \<^verbatim>\<open>fmt.Errorf("query returned %d
  subscriptions", n)\<close> of \<^verbatim>\<open>processOne\<close>, \<^verbatim>\<open>dsserr.BadRequest(msg)\<close>,
  \<^verbatim>\<open>dsserr.Internal(msg)\<close>, and errors that a collaborator hands back and the file
  passes on as they are (the executor, \<^verbatim>\<open>geo.ValidateCell\<close>). \<open>NilVersion\<close> stands
  for the call of \<^verbatim>\<open>ToTimestamp\<close> on an empty version.
\<close>

datatype error =
    ErrNoRows
  | QueryReturned nat
  | BadRequest string
  | Internal string
  | External string
  | NilVersion

text \<open>
  A row of the relation, with the columns of \<^verbatim>\<open>subscriptionFields\<close> in their order.
  \<^verbatim>\<open>starts_at\<close> and \<^verbatim>\<open>ends_at\<close> are nullable. \<^verbatim>\<open>notification_index\<close> is an
  integer of fixed width: it is scanned into the Go field \<^verbatim>\<open>NotificationIndex\<close>, an
  \<^verbatim>\<open>int\<close> of 64 bits, and is a 64-bit word read as a signed number (\<open>sint\<close>).
\<close>

record row =
  row_id :: ID
  owner :: Owner
  url :: string
  notification_index :: int64
  cells :: "int64 list"
  starts_at :: "timestamp option"
  ends_at :: "timestamp option"
  updated_at :: timestamp

text \<open>
  The Go entity. Modelled from the spec: the type \<^verbatim>\<open>Version\<close> (package pkg/models) is
  not among the sources; it is an opaque token wrapping the timestamp of the last write,
  and the empty version denotes a subscription that is not yet persisted. So
  \<^verbatim>\<open>Version.Empty()\<close> is \<open>Version s = None\<close> and \<^verbatim>\<open>ToTimestamp\<close> reads the timestamp
  of a version that is there.
\<close>

record Subscription =
  ID :: ID
  Owner :: Owner
  URL :: string
  NotificationIndex :: int64
  Cells :: "CellID list"
  StartTime :: "timestamp option"
  EndTime :: "timestamp option"
  Version :: "timestamp option"

text \<open>
  The store: the relation behind the \<^verbatim>\<open>Queryable\<close>, the number of statements handed to
  it so far, the reading of \<^verbatim>\<open>c.clock.Now()\<close>, and the value that
  \<^verbatim>\<open>transaction_timestamp()\<close> has for the next statement.
\<close>

record SubscriptionStore =
  subscriptions :: "row list"
  issued :: nat
  clock :: timestamp
  transaction_timestamp :: timestamp

text \<open>
  \<^verbatim>\<open>ctx\<close>: \<open>None\<close> when the round trip goes through, \<open>Some err\<close> when the executor
  gives up with \<open>err\<close> (cancelled context, lost connection) without running the
  statement.
\<close>

type_synonym "context" = "error option"

subsection \<open>SQL\<close>

text \<open>
  A statement maps the transaction timestamp and the relation to the relation afterwards
  and the rows it returns (\<^verbatim>\<open>RETURNING\<close>, or the selected rows), or to a storage error.
\<close>

type_synonym statement = "timestamp \<Rightarrow> row list \<Rightarrow> error + (row list \<times> row list)"

definition SELECT_WHERE :: "(row \<Rightarrow> bool) \<Rightarrow> statement" where
  "SELECT_WHERE P ts tbl = Inr (tbl, filter P tbl)"

text \<open>
  \<^verbatim>\<open>UPDATE ... SET ... WHERE ... RETURNING\<close>. The new value of a row may fail to
  evaluate; then the whole statement fails with that error and no row is changed.
\<close>

fun SET_WHERE ::
  "(row \<Rightarrow> error + row) \<Rightarrow> (row \<Rightarrow> bool) \<Rightarrow> row list \<Rightarrow> error + (row list \<times> row list)" where
  "SET_WHERE f P [] = Inr ([], [])"
| "SET_WHERE f P (r # rs) =
     (if P r then
        (case f r of
           Inl err \<Rightarrow> Inl err
         | Inr r' \<Rightarrow>
             (case SET_WHERE f P rs of
                Inl err \<Rightarrow> Inl err
              | Inr (tbl, out) \<Rightarrow> Inr (r' # tbl, r' # out)))
      else
        (case SET_WHERE f P rs of
           Inl err \<Rightarrow> Inl err
         | Inr (tbl, out) \<Rightarrow> Inr (r # tbl, out)))"

definition UPDATE_SET_WHERE ::
  "(timestamp \<Rightarrow> row \<Rightarrow> error + row) \<Rightarrow> (row \<Rightarrow> bool) \<Rightarrow> statement" where
  "UPDATE_SET_WHERE f P ts tbl = SET_WHERE (f ts) P tbl"

text \<open>
  \<^verbatim>\<open>a + b\<close> on the store's 64-bit integers does not wrap around: a sum outside the
  range of a signed 64-bit integer is the error \<^verbatim>\<open>integer out of range\<close>.
\<close>

definition ErrIntegerOutOfRange :: error where
  "ErrIntegerOutOfRange = External ''integer out of range''"

definition add_int64 :: "int64 \<Rightarrow> int64 \<Rightarrow> error + int64" where
  "add_int64 a b =
     (if - (2 ^ 63) \<le> sint a + sint b \<and> sint a + sint b \<le> 2 ^ 63 - 1 then Inr (a + b)
      else Inl ErrIntegerOutOfRange)"

definition DELETE_WHERE :: "(row \<Rightarrow> bool) \<Rightarrow> statement" where
  "DELETE_WHERE P ts tbl = Inr (filter (\<lambda>r. \<not> P r) tbl, filter P tbl)"

text \<open>
  Modelled from the spec: the schema is not among the sources; it declares \<^verbatim>\<open>id\<close> a
  unique key, so the store refuses to insert a second row with an \<^verbatim>\<open>id\<close> that is
  there already.
\<close>

definition ErrDuplicateKey :: error where
  "ErrDuplicateKey = External ''duplicate key value violates unique constraint''"

definition INSERT_VALUES :: "(timestamp \<Rightarrow> row) \<Rightarrow> statement" where
  "INSERT_VALUES v ts tbl =
     (if list_ex (\<lambda>r. row_id r = row_id (v ts)) tbl then Inl ErrDuplicateKey
      else Inr (tbl @ [v ts], [v ts]))"

text \<open>\<^verbatim>\<open>a && b\<close> on arrays: they share an element.\<close>

definition overlaps :: "int64 list \<Rightarrow> int64 list \<Rightarrow> bool" where
  "overlaps a b = list_ex (\<lambda>x. x \<in> set b) a"

text \<open>\<^verbatim>\<open>x = ANY(a)\<close>.\<close>

definition ANY :: "int64 \<Rightarrow> int64 list \<Rightarrow> bool" where
  "ANY x a = (x \<in> set a)"

text \<open>\<^verbatim>\<open>ends_at >= t\<close>: never true of a row whose \<^verbatim>\<open>ends_at\<close> is NULL.\<close>

definition ge_ts :: "timestamp option \<Rightarrow> timestamp \<Rightarrow> bool" where
  "ge_ts e t = (case e of None \<Rightarrow> False | Some e' \<Rightarrow> t \<le> e')"

text \<open>\<^verbatim>\<open>MAX\<close> over the rows of a subquery is NULL when there is none; \<^verbatim>\<open>IFNULL\<close>.\<close>

fun MAX_of :: "int list \<Rightarrow> int option" where
  "MAX_of [] = None"
| "MAX_of (x # xs) = Some (fold max xs x)"

definition IFNULL :: "int option \<Rightarrow> int \<Rightarrow> int" where
  "IFNULL v d = (case v of None \<Rightarrow> d | Some x \<Rightarrow> x)"

subsection \<open>The executor\<close>

definition QueryContext ::
  "context \<Rightarrow> statement \<Rightarrow> SubscriptionStore \<Rightarrow> (error + row list) \<times> SubscriptionStore" where
  "QueryContext ctx query c =
     (let c' = c\<lparr>issued := Suc (issued c)\<rparr> in
      case ctx of
        Some err \<Rightarrow> (Inl err, c')
      | None \<Rightarrow>
          (case query (transaction_timestamp c) (subscriptions c) of
             Inl err \<Rightarrow> (Inl err, c')
           | Inr (tbl, out) \<Rightarrow> (Inr out, c'\<lparr>subscriptions := tbl\<rparr>)))"

text \<open>\<^verbatim>\<open>QueryRowContext\<close> followed by \<^verbatim>\<open>row.Scan(&ret)\<close> of the one integer.\<close>

definition QueryRowContext ::
  "context \<Rightarrow> (row list \<Rightarrow> int) \<Rightarrow> SubscriptionStore \<Rightarrow> (error + int) \<times> SubscriptionStore" where
  "QueryRowContext ctx query c =
     (let c' = c\<lparr>issued := Suc (issued c)\<rparr> in
      case ctx of
        Some err \<Rightarrow> (Inl err, c')
      | None \<Rightarrow> (Inr (query (subscriptions c)), c'))"

subsection \<open>process and processOne\<close>

text \<open>
  \<^verbatim>\<open>rows.Scan\<close> into a fresh \<^verbatim>\<open>Subscription\<close>, then \<^verbatim>\<open>s.SetCells(cids)\<close>. Every
  column of a row has a value of the type of the field it is scanned into, so the scan
  itself does not fail; an error of the row stream is an error of the executor, which
  \<open>ctx\<close> stands for.
\<close>

definition SetCells :: "int64 list \<Rightarrow> CellID list" where
  "SetCells cids = map CellID cids"

definition Scan :: "row \<Rightarrow> Subscription" where
  "Scan r =
     \<lparr>ID = row_id r, Owner = owner r, URL = url r,
      NotificationIndex = notification_index r, Cells = SetCells (cells r),
      StartTime = starts_at r, EndTime = ends_at r, Version = Some (updated_at r)\<rparr>"

definition process ::
  "context \<Rightarrow> statement \<Rightarrow> SubscriptionStore \<Rightarrow> (error + Subscription list) \<times> SubscriptionStore" where
  "process ctx query c =
     (case QueryContext ctx query c of
        (Inl err, c') \<Rightarrow> (Inl err, c')
      | (Inr rows, c') \<Rightarrow> (Inr (map Scan rows), c'))"

definition processOne ::
  "context \<Rightarrow> statement \<Rightarrow> SubscriptionStore \<Rightarrow> (error + Subscription) \<times> SubscriptionStore" where
  "processOne ctx query c =
     (case process ctx query c of
        (Inl err, c') \<Rightarrow> (Inl err, c')
      | (Inr subs, c') \<Rightarrow>
          (if length subs > 1 then (Inl (QueryReturned (length subs)), c')
           else if length subs = 0 then (Inl ErrNoRows, c')
           else (Inr (subs ! 0), c')))"

subsection \<open>The methods of SubscriptionStore\<close>

text \<open>
  The statement of \<^verbatim>\<open>MaxSubscriptionCountInCellsByOwner\<close>, innermost subquery first:
  \<^verbatim>\<open>unnest(cells)\<close> of the owner's rows with \<^verbatim>\<open>ends_at >= $2\<close>, the cell ids that are
  \<^verbatim>\<open>ANY($3)\<close>, one group per cell id with its \<^verbatim>\<open>COUNT(*)\<close>, and the maximum or 0.
\<close>

definition maxCountQuery :: "Owner \<Rightarrow> timestamp \<Rightarrow> int64 list \<Rightarrow> row list \<Rightarrow> int" where
  "maxCountQuery a1 a2 a3 tbl =
     (let cell_id = concat (map cells (filter (\<lambda>r. owner r = a1 \<and> ge_ts (ends_at r) a2) tbl));
          selected = filter (\<lambda>x. ANY x a3) cell_id;
          subscriptions_per_cell_id =
            map (\<lambda>g. int (length (filter (\<lambda>x. x = g) selected))) (remdups selected)
      in IFNULL (MAX_of subscriptions_per_cell_id) 0)"

definition MaxSubscriptionCountInCellsByOwner ::
  "context \<Rightarrow> CellID list \<Rightarrow> Owner \<Rightarrow> SubscriptionStore \<Rightarrow> (error + int) \<times> SubscriptionStore" where
  "MaxSubscriptionCountInCellsByOwner ctx cellUnion own c =
     (let cids = map int64 cellUnion
      in QueryRowContext ctx (maxCountQuery own (clock c) cids) c)"

definition GetSubscription ::
  "context \<Rightarrow> ID \<Rightarrow> SubscriptionStore \<Rightarrow> (error + Subscription) \<times> SubscriptionStore" where
  "GetSubscription ctx i c = processOne ctx (SELECT_WHERE (\<lambda>r. row_id r = i)) c"

definition UpdateSubscription ::
  "context \<Rightarrow> Subscription \<Rightarrow> SubscriptionStore \<Rightarrow> (error + Subscription) \<times> SubscriptionStore" where
  "UpdateSubscription ctx s c = (Inl (Internal ''not yet implemented''), c)"

text \<open>
  The two statements of \<^verbatim>\<open>InsertSubscription\<close>; the arguments are \<^verbatim>\<open>$1\<close> to \<^verbatim>\<open>$8\<close>.
\<close>

definition values_row ::
  "ID \<Rightarrow> Owner \<Rightarrow> string \<Rightarrow> int64 \<Rightarrow> int64 list \<Rightarrow> timestamp option \<Rightarrow>
   timestamp option \<Rightarrow> timestamp \<Rightarrow> row" where
  "values_row a1 a2 a3 a4 a5 a6 a7 ts =
     \<lparr>row_id = a1, owner = a2, url = a3, notification_index = a4, cells = a5,
      starts_at = a6, ends_at = a7, updated_at = ts\<rparr>"

definition udpateQuery ::
  "ID \<Rightarrow> Owner \<Rightarrow> string \<Rightarrow> int64 \<Rightarrow> int64 list \<Rightarrow> timestamp option \<Rightarrow>
   timestamp option \<Rightarrow> timestamp \<Rightarrow> statement" where
  "udpateQuery a1 a2 a3 a4 a5 a6 a7 a8 =
     UPDATE_SET_WHERE (\<lambda>ts r. Inr (values_row a1 a2 a3 a4 a5 a6 a7 ts))
       (\<lambda>r. row_id r = a1 \<and> updated_at r = a8)"

definition insertQuery ::
  "ID \<Rightarrow> Owner \<Rightarrow> string \<Rightarrow> int64 \<Rightarrow> int64 list \<Rightarrow> timestamp option \<Rightarrow>
   timestamp option \<Rightarrow> statement" where
  "insertQuery a1 a2 a3 a4 a5 a6 a7 = INSERT_VALUES (values_row a1 a2 a3 a4 a5 a6 a7)"

text \<open>
  The loop over \<^verbatim>\<open>s.Cells\<close>: each cell is validated, then converted; the first error
  ends the loop. \<^verbatim>\<open>geo.ValidateCell\<close> is not among the sources and is a parameter.
\<close>

fun convertCells :: "(CellID \<Rightarrow> error option) \<Rightarrow> CellID list \<Rightarrow> error + int64 list" where
  "convertCells ValidateCell [] = Inr []"
| "convertCells ValidateCell (cell # rest) =
     (case ValidateCell cell of
        Some err \<Rightarrow> Inl err
      | None \<Rightarrow>
          (case convertCells ValidateCell rest of
             Inl err \<Rightarrow> Inl err
           | Inr cids \<Rightarrow> Inr (int64 cell # cids)))"

definition InsertSubscription ::
  "(CellID \<Rightarrow> error option) \<Rightarrow> context \<Rightarrow> Subscription \<Rightarrow> SubscriptionStore \<Rightarrow>
   (error + Subscription) \<times> SubscriptionStore" where
  "InsertSubscription ValidateCell ctx s c =
     (case convertCells ValidateCell (Cells s) of
        Inl err \<Rightarrow> (Inl err, c)
      | Inr cids \<Rightarrow>
          (case Version s of
             None \<Rightarrow>
               processOne ctx
                 (insertQuery (ID s) (Owner s) (URL s) (NotificationIndex s) cids
                    (StartTime s) (EndTime s)) c
           | Some v \<Rightarrow>
               processOne ctx
                 (udpateQuery (ID s) (Owner s) (URL s) (NotificationIndex s) cids
                    (StartTime s) (EndTime s) v) c))"

text \<open>
  \<^verbatim>\<open>DeleteSubscription\<close> calls \<^verbatim>\<open>s.Version.ToTimestamp()\<close> without asking
  \<^verbatim>\<open>Empty()\<close> first. What that call does on an empty version is decided in pkg/models;
  here it is the outcome \<open>NilVersion\<close>, reached before any statement is built.
\<close>

definition DeleteSubscription ::
  "context \<Rightarrow> Subscription \<Rightarrow> SubscriptionStore \<Rightarrow> (error + Subscription) \<times> SubscriptionStore" where
  "DeleteSubscription ctx s c =
     (case Version s of
        None \<Rightarrow> (Inl NilVersion, c)
      | Some v \<Rightarrow>
          processOne ctx
            (DELETE_WHERE (\<lambda>r. row_id r = ID s \<and> owner r = Owner s \<and> updated_at r = v)) c)"

definition UpdateNotificationIdxsInCells ::
  "context \<Rightarrow> CellID list \<Rightarrow> SubscriptionStore \<Rightarrow>
   (error + Subscription list) \<times> SubscriptionStore" where
  "UpdateNotificationIdxsInCells ctx cellUnion c =
     (let cids = map int64 cellUnion; now = clock c
      in process ctx
           (UPDATE_SET_WHERE
              (\<lambda>ts r. case add_int64 (notification_index r) 1 of
                         Inl err \<Rightarrow> Inl err
                       | Inr n \<Rightarrow> Inr (r\<lparr>notification_index := n\<rparr>))
              (\<lambda>r. overlaps (cells r) cids \<and> ge_ts (ends_at r) now)) c)"

definition SearchSubscriptions ::
  "context \<Rightarrow> CellID list \<Rightarrow> SubscriptionStore \<Rightarrow>
   (error + Subscription list) \<times> SubscriptionStore" where
  "SearchSubscriptions ctx cellUnion c =
     (if length cellUnion = 0 then (Inl (BadRequest ''no location provided''), c)
      else
        (let cids = map int64 cellUnion; now = clock c
         in process ctx
              (SELECT_WHERE (\<lambda>r. overlaps (cells r) cids \<and> ge_ts (ends_at r) now)) c))"

definition SearchSubscriptionsByOwner ::
  "context \<Rightarrow> CellID list \<Rightarrow> Owner \<Rightarrow> SubscriptionStore \<Rightarrow>
   (error + Subscription list) \<times> SubscriptionStore" where
  "SearchSubscriptionsByOwner ctx cellUnion own c =
     (if length cellUnion = 0 then (Inl (BadRequest ''no location provided''), c)
      else
        (let cids = map int64 cellUnion; now = clock c
         in process ctx
              (SELECT_WHERE
                 (\<lambda>r. overlaps (cells r) cids \<and> owner r = own \<and> ge_ts (ends_at r) now)) c))"

subsection \<open>Example stores\<close>

text \<open>
  The subscriptions of the spec's scenarios: A covers the cells 1, 2, 3 and B the cells 4, 5,
  both valid until 100; X has expired at 10. The clock of the example stores reads 50.
\<close>

definition rowA :: row where
  "rowA = \<lparr>row_id = ''A'', owner = ''uss1'', url = ''https://uss1/a'', notification_index = 0,
            cells = [1, 2, 3], starts_at = Some 0, ends_at = Some 100, updated_at = 7\<rparr>"

definition rowB :: row where
  "rowB = \<lparr>row_id = ''B'', owner = ''uss2'', url = ''https://uss2/b'', notification_index = 4,
            cells = [4, 5], starts_at = Some 0, ends_at = Some 100, updated_at = 8\<rparr>"

definition rowX :: row where
  "rowX = \<lparr>row_id = ''X'', owner = ''uss1'', url = ''https://uss1/x'', notification_index = 2,
            cells = [3], starts_at = Some 0, ends_at = Some 10, updated_at = 9\<rparr>"

definition store0 :: SubscriptionStore where
  "store0 = \<lparr>subscriptions = [rowA, rowB, rowX], issued = 0, clock = 50,
              transaction_timestamp = 60\<rparr>"

definition store_dup :: SubscriptionStore where
  "store_dup = \<lparr>subscriptions = [rowA, rowB, rowA], issued = 0, clock = 50,
              transaction_timestamp = 60\<rparr>"

definition ValidateCell0 :: "CellID \<Rightarrow> error option" where
  "ValidateCell0 cell = (if cell = 0 then Some (External ''bad cell'') else None)"

definition subNew :: Subscription where
  "subNew = \<lparr>ID = ''N'', Owner = ''uss1'', URL = ''https://uss1/n'', NotificationIndex = 0,
             Cells = [3, 0, 5], StartTime = Some 0, EndTime = Some 100, Version = None\<rparr>"


definition store_empty :: SubscriptionStore where
  "store_empty = \<lparr>subscriptions = [], issued = 0, clock = 50, transaction_timestamp = 60\<rparr>"

definition subTwice :: Subscription where
  "subTwice = \<lparr>ID = ''T'', Owner = ''uss1'', URL = ''https://uss1/t'', NotificationIndex = 0,
               Cells = [10, 10], StartTime = Some 0, EndTime = Some 100, Version = None\<rparr>"

definition rowT :: row where
  "rowT = \<lparr>row_id = ''T'', owner = ''uss1'', url = ''https://uss1/t'', notification_index = 0,
            cells = [10, 10], starts_at = Some 0, ends_at = Some 100, updated_at = 60\<rparr>"


definition subNew5 :: Subscription where
  "subNew5 = \<lparr>ID = ''N'', Owner = ''uss1'', URL = ''https://uss1/n'', NotificationIndex = 5,
              Cells = [3, 5], StartTime = Some 0, EndTime = Some 100, Version = None\<rparr>"

text \<open>
  M holds the largest value of a signed 64-bit integer as its notification index.
\<close>

definition rowM :: row where
  "rowM = \<lparr>row_id = ''M'', owner = ''uss1'', url = ''https://uss1/m'',
            notification_index = 0x7FFFFFFFFFFFFFFF,
            cells = [3], starts_at = Some 0, ends_at = Some 100, updated_at = 5\<rparr>"

definition store_max :: SubscriptionStore where
  "store_max = \<lparr>subscriptions = [rowA, rowM], issued = 0, clock = 50,
                transaction_timestamp = 60\<rparr>"

definition subDeleteA :: Subscription where
  "subDeleteA = \<lparr>ID = ''A'', Owner = ''uss1'', URL = ''https://other'', NotificationIndex = 9,
                 Cells = [], StartTime = None, EndTime = None, Version = Some 7\<rparr>"

section \<open>Properties\<close>

subsection \<open>Auxiliary facts\<close>

lemma overlaps_iff: "overlaps a b \<longleftrightarrow> set a \<inter> set b \<noteq> {}"
  by (auto simp: overlaps_def list_ex_iff)

lemma map_int64: "map int64 xs = xs"
  by (induction xs) (simp_all add: int64_def)

lemma SetCells_id: "SetCells cids = cids"
  by (induction cids) (simp_all add: SetCells_def CellID_def)

lemma QueryContext_None:
  "QueryContext None q c =
     (case q (transaction_timestamp c) (subscriptions c) of
        Inl err \<Rightarrow> (Inl err, c\<lparr>issued := Suc (issued c)\<rparr>)
      | Inr (tbl, out) \<Rightarrow> (Inr out, c\<lparr>issued := Suc (issued c), subscriptions := tbl\<rparr>))"
  by (simp add: QueryContext_def Let_def split: sum.splits prod.splits)

lemma process_None:
  "process None q c =
     (case q (transaction_timestamp c) (subscriptions c) of
        Inl err \<Rightarrow> (Inl err, c\<lparr>issued := Suc (issued c)\<rparr>)
      | Inr (tbl, out) \<Rightarrow> (Inr (map Scan out), c\<lparr>issued := Suc (issued c), subscriptions := tbl\<rparr>))"
  by (simp add: process_def QueryContext_None split: sum.splits prod.splits)


lemma processOne_None:
  "processOne None q c =
     (case q (transaction_timestamp c) (subscriptions c) of
        Inl err \<Rightarrow> (Inl err, c\<lparr>issued := Suc (issued c)\<rparr>)
      | Inr (tbl, out) \<Rightarrow>
          (case out of
             [] \<Rightarrow> Inl ErrNoRows
           | [r] \<Rightarrow> Inr (Scan r)
           | _ \<Rightarrow> Inl (QueryReturned (length out)),
           c\<lparr>issued := Suc (issued c), subscriptions := tbl\<rparr>))"
  by (simp add: processOne_def process_None split: sum.splits prod.splits list.splits)

lemma convertCells_Inl:
  "convertCells V xs = Inl err \<longleftrightarrow>
     (\<exists>pre cell post. xs = pre @ cell # post \<and> (\<forall>x\<in>set pre. V x = None) \<and> V cell = Some err)"
proof (induction xs)
  case Nil
  then show ?case by simp
next
  case (Cons a xs)
  show ?case
  proof (cases "V a")
    case None
    have "convertCells V (a # xs) = Inl err \<longleftrightarrow> convertCells V xs = Inl err"
      using None by (simp split: sum.splits)
    also have "\<dots> \<longleftrightarrow> (\<exists>pre cell post. xs = pre @ cell # post \<and> (\<forall>x\<in>set pre. V x = None) \<and> V cell = Some err)"
      by (rule Cons.IH)
    also have "\<dots> \<longleftrightarrow> (\<exists>pre cell post. a # xs = pre @ cell # post \<and> (\<forall>x\<in>set pre. V x = None) \<and> V cell = Some err)"
    proof
      assume "\<exists>pre cell post. xs = pre @ cell # post \<and> (\<forall>x\<in>set pre. V x = None) \<and> V cell = Some err"
      then obtain pre cell post where "xs = pre @ cell # post" "\<forall>x\<in>set pre. V x = None" "V cell = Some err"
        by blast
      then have "a # xs = (a # pre) @ cell # post \<and> (\<forall>x\<in>set (a # pre). V x = None) \<and> V cell = Some err"
        using None by simp
      then show "\<exists>pre cell post. a # xs = pre @ cell # post \<and> (\<forall>x\<in>set pre. V x = None) \<and> V cell = Some err"
        by blast
    next
      assume "\<exists>pre cell post. a # xs = pre @ cell # post \<and> (\<forall>x\<in>set pre. V x = None) \<and> V cell = Some err"
      then obtain pre cell post where h: "a # xs = pre @ cell # post" "\<forall>x\<in>set pre. V x = None" "V cell = Some err"
        by blast
      from h None obtain pre' where "pre = a # pre'"
        by (cases pre) auto
      with h have "xs = pre' @ cell # post \<and> (\<forall>x\<in>set pre'. V x = None) \<and> V cell = Some err"
        by simp
      then show "\<exists>pre cell post. xs = pre @ cell # post \<and> (\<forall>x\<in>set pre. V x = None) \<and> V cell = Some err"
        by blast
    qed
    finally show ?thesis .
  next
    case (Some e)
    have "convertCells V (a # xs) = Inl err \<longleftrightarrow> e = err"
      using Some by simp
    also have "\<dots> \<longleftrightarrow> (\<exists>pre cell post. a # xs = pre @ cell # post \<and> (\<forall>x\<in>set pre. V x = None) \<and> V cell = Some err)"
    proof
      assume "e = err"
      then have "a # xs = [] @ a # xs \<and> (\<forall>x\<in>set []. V x = None) \<and> V a = Some err"
        using Some by simp
      then show "\<exists>pre cell post. a # xs = pre @ cell # post \<and> (\<forall>x\<in>set pre. V x = None) \<and> V cell = Some err"
        by blast
    next
      assume "\<exists>pre cell post. a # xs = pre @ cell # post \<and> (\<forall>x\<in>set pre. V x = None) \<and> V cell = Some err"
      then obtain pre cell post where h: "a # xs = pre @ cell # post" "\<forall>x\<in>set pre. V x = None" "V cell = Some err"
        by blast
      show "e = err"
      proof (cases pre)
        case Nil
        with h Some show ?thesis by simp
      next
        case (Cons p ps)
        with h Some show ?thesis by simp
      qed
    qed
    finally show ?thesis .
  qed
qed

lemma convertCells_Inr:
  "(\<forall>x\<in>set xs. V x = None) \<Longrightarrow> convertCells V xs = Inr xs"
  by (induction xs) (simp_all add: int64_def)

lemma convertCells_valid:
  "convertCells V xs = Inr ys \<Longrightarrow> (\<forall>x\<in>set xs. V x = None)"
  by (induction xs arbitrary: ys) (auto split: sum.splits option.splits)

lemma convertCells_Inr_iff:
  "convertCells V xs = Inr ys \<longleftrightarrow> (\<forall>x\<in>set xs. V x = None) \<and> ys = xs"
  using convertCells_Inr [of xs V] convertCells_valid [of V xs ys] by auto

lemma ge_ts_iff: "ge_ts e t \<longleftrightarrow> (\<exists>e'. e = Some e' \<and> t \<le> e')"
  by (simp add: ge_ts_def split: option.splits)



lemma search_pred:
  "(overlaps (cells r) (map int64 cellUnion) \<and> ge_ts (ends_at r) now) \<longleftrightarrow>
   ((\<exists>e. ends_at r = Some e \<and> now \<le> e) \<and> set (cells r) \<inter> set cellUnion \<noteq> {})"
  by (auto simp: overlaps_iff ge_ts_iff map_int64)

lemma SET_WHERE_total:
  "(\<forall>r\<in>set tbl. P r \<longrightarrow> f r = Inr (g r)) \<Longrightarrow>
   SET_WHERE f P tbl = Inr (map (\<lambda>r. if P r then g r else r) tbl, map g (filter P tbl))"
  by (induction tbl) auto

lemma SET_WHERE_fails:
  assumes "\<exists>r\<in>set tbl. P r \<and> f r = Inl e" and "\<And>r e'. f r = Inl e' \<Longrightarrow> e' = e"
  shows "SET_WHERE f P tbl = Inl e"
  using assms(1)
proof (induction tbl)
  case Nil
  then show ?case by simp
next
  case (Cons a tbl)
  show ?case
  proof (cases "P a \<and> f a = Inl e")
    case True
    then show ?thesis by simp
  next
    case False
    with Cons.prems have "\<exists>r\<in>set tbl. P r \<and> f r = Inl e"
      by auto
    then have rest: "SET_WHERE f P tbl = Inl e"
      by (rule Cons.IH)
    show ?thesis
    proof (cases "f a")
      case (Inl e')
      then have "e' = e" by (rule assms(2))
      with Inl rest show ?thesis by simp
    next
      case (Inr r')
      with rest show ?thesis by simp
    qed
  qed
qed


lemma sint_bounds64: "- (2 ^ 63) \<le> sint (a :: 64 word) \<and> sint a \<le> 2 ^ 63 - 1"
  using sint_ge [of a] sint_lt [of a] by simp

lemma sint_succ64: "sint (a :: 64 word) < 2 ^ 63 - 1 \<Longrightarrow> sint (a + 1) = sint a + 1"
proof -
  assume h: "sint a < 2 ^ 63 - 1"
  have "sint (a + 1) = signed_take_bit (LENGTH(64) - 1) (sint a + sint (1 :: 64 word))"
    by (rule sint_word_add)
  also have "\<dots> = signed_take_bit 63 (sint a + 1)" by simp
  also have "\<dots> = sint a + 1"
    using h sint_bounds64 [of a] by (intro signed_take_bit_int_eq_self) simp_all
  finally show ?thesis .
qed

lemma add_int64_one:
  "add_int64 a 1 = (if sint a = 2 ^ 63 - 1 then Inl ErrIntegerOutOfRange else Inr (a + 1))"
  using sint_bounds64 [of a] by (auto simp: add_int64_def)

lemma UpdateNotificationIdxsInCells_run:
  "UpdateNotificationIdxsInCells None cellUnion c =
     (if \<exists>r\<in>set (subscriptions c).
           ((\<exists>e. ends_at r = Some e \<and> clock c \<le> e) \<and> set (cells r) \<inter> set cellUnion \<noteq> {}) \<and>
           sint (notification_index r) = 2 ^ 63 - 1
      then (Inl ErrIntegerOutOfRange, c\<lparr>issued := Suc (issued c)\<rparr>)
      else
        (Inr (map Scan (map (\<lambda>r. r\<lparr>notification_index := notification_index r + 1\<rparr>)
           (filter (\<lambda>r. (\<exists>e. ends_at r = Some e \<and> clock c \<le> e) \<and> set (cells r) \<inter> set cellUnion \<noteq> {})
              (subscriptions c)))),
         c\<lparr>issued := Suc (issued c),
           subscriptions :=
             map (\<lambda>r. if (\<exists>e. ends_at r = Some e \<and> clock c \<le> e) \<and> set (cells r) \<inter> set cellUnion \<noteq> {}
                      then r\<lparr>notification_index := notification_index r + 1\<rparr> else r)
               (subscriptions c)\<rparr>))"
proof -
  let ?P = "\<lambda>r. (\<exists>e. ends_at r = Some e \<and> clock c \<le> e) \<and> set (cells r) \<inter> set cellUnion \<noteq> {}"
  let ?f = "\<lambda>r. case add_int64 (notification_index r) 1 of
                   Inl err \<Rightarrow> Inl err
                 | Inr n \<Rightarrow> Inr (r\<lparr>notification_index := n\<rparr>)"
  let ?g = "\<lambda>r::row. r\<lparr>notification_index := notification_index r + 1\<rparr>"
  have unf: "UpdateNotificationIdxsInCells None cellUnion c =
      (case SET_WHERE ?f ?P (subscriptions c) of
         Inl err \<Rightarrow> (Inl err, c\<lparr>issued := Suc (issued c)\<rparr>)
       | Inr (tbl, out) \<Rightarrow> (Inr (map Scan out), c\<lparr>issued := Suc (issued c), subscriptions := tbl\<rparr>))"
    by (simp add: UpdateNotificationIdxsInCells_def process_None UPDATE_SET_WHERE_def Let_def
        search_pred)
  show ?thesis
  proof (cases "\<exists>r\<in>set (subscriptions c). ?P r \<and> sint (notification_index r) = 2 ^ 63 - 1")
    case True
    then have "\<exists>r\<in>set (subscriptions c). ?P r \<and> ?f r = Inl ErrIntegerOutOfRange"
      by (auto simp: add_int64_one)
    moreover have "\<And>r e'. ?f r = Inl e' \<Longrightarrow> e' = ErrIntegerOutOfRange"
      by (simp add: add_int64_one split: if_splits)
    ultimately have "SET_WHERE ?f ?P (subscriptions c) = Inl ErrIntegerOutOfRange"
      by (rule SET_WHERE_fails)
    with True show ?thesis
      unfolding unf by simp
  next
    case False
    then have "\<forall>r\<in>set (subscriptions c). ?P r \<longrightarrow> ?f r = Inr (?g r)"
      by (auto simp: add_int64_one)
    then have "SET_WHERE ?f ?P (subscriptions c) =
        Inr (map (\<lambda>r. if ?P r then ?g r else r) (subscriptions c), map ?g (filter ?P (subscriptions c)))"
      by (rule SET_WHERE_total)
    with False show ?thesis
      unfolding unf by simp
  qed
qed

lemma UpdateNotificationIdxsInCells_fails:
  assumes "\<exists>r\<in>set (subscriptions c).
           ((\<exists>e. ends_at r = Some e \<and> clock c \<le> e) \<and> set (cells r) \<inter> set cellUnion \<noteq> {}) \<and>
           sint (notification_index r) = 2 ^ 63 - 1"
  shows "UpdateNotificationIdxsInCells None cellUnion c =
     (Inl ErrIntegerOutOfRange, c\<lparr>issued := Suc (issued c)\<rparr>)"
  by (simp only: UpdateNotificationIdxsInCells_run if_P [OF assms])

lemma UpdateNotificationIdxsInCells_succeeds:
  assumes "\<not> (\<exists>r\<in>set (subscriptions c).
           ((\<exists>e. ends_at r = Some e \<and> clock c \<le> e) \<and> set (cells r) \<inter> set cellUnion \<noteq> {}) \<and>
           sint (notification_index r) = 2 ^ 63 - 1)"
  shows "UpdateNotificationIdxsInCells None cellUnion c =
     (Inr (map Scan (map (\<lambda>r. r\<lparr>notification_index := notification_index r + 1\<rparr>)
        (filter (\<lambda>r. (\<exists>e. ends_at r = Some e \<and> clock c \<le> e) \<and> set (cells r) \<inter> set cellUnion \<noteq> {})
           (subscriptions c)))),
      c\<lparr>issued := Suc (issued c),
        subscriptions :=
          map (\<lambda>r. if (\<exists>e. ends_at r = Some e \<and> clock c \<le> e) \<and> set (cells r) \<inter> set cellUnion \<noteq> {}
                   then r\<lparr>notification_index := notification_index r + 1\<rparr> else r)
            (subscriptions c)\<rparr>)"
  by (simp only: UpdateNotificationIdxsInCells_run if_not_P [OF assms])

lemma filter_map_bump:
  assumes "\<And>r. P (f r) = P r"
  shows "filter P (map (\<lambda>r. if P r then f r else r) xs) = map f (filter P xs)"
  using assms by (induction xs) auto

lemma MAX_of_Max: "xs \<noteq> [] \<Longrightarrow> MAX_of xs = Some (Max (set xs))"
proof (cases xs)
  case Nil
  assume "xs \<noteq> []"
  with Nil show ?thesis by simp
next
  case (Cons a list)
  have "fold max list a = Max (set (a # list))"
    by (simp only: Max.set_eq_fold)
  with Cons show ?thesis by simp
qed

lemma length_filter_eq_filter:
  "length (filter (\<lambda>x. P x \<and> x = g) xs) = (if P g then count_list xs g else 0)"
  by (induction xs) auto

lemma count_list_zero: "g \<notin> set xs \<Longrightarrow> count_list xs g = 0"
  by (induction xs) auto

lemma count_list_distinct: "distinct xs \<Longrightarrow> count_list xs g = (if g \<in> set xs then 1 else 0)"
  by (induction xs) auto

lemma count_list_concat_distinct:
  "(\<forall>r\<in>set rs. distinct (cells r)) \<Longrightarrow>
   count_list (concat (map cells rs)) g = length (filter (\<lambda>r. g \<in> set (cells r)) rs)"
  by (induction rs) (simp_all add: count_list_distinct)

lemma maxCountQuery_occurrences:
  "maxCountQuery own now cids tbl =
     Max (insert 0 ((\<lambda>cell. int (count_list
            (concat (map cells (filter (\<lambda>r. owner r = own \<and> ge_ts (ends_at r) now) tbl))) cell))
         ` set cids))"
proof -
  define cell_id where
    "cell_id = concat (map cells (filter (\<lambda>r. owner r = own \<and> ge_ts (ends_at r) now) tbl))"
  define selected where "selected = filter (\<lambda>x. x \<in> set cids) cell_id"
  define f where "f = (\<lambda>cell. int (count_list cell_id cell))"
  have groups: "(\<lambda>g. int (length (filter (\<lambda>x. x = g) selected))) ` set selected = f ` set selected"
    by (rule image_cong) (auto simp: selected_def f_def length_filter_eq_filter)
  have run: "maxCountQuery own now cids tbl =
      IFNULL (MAX_of (map (\<lambda>g. int (length (filter (\<lambda>x. x = g) selected))) (remdups selected))) 0"
    by (simp add: maxCountQuery_def Let_def cell_id_def selected_def ANY_def)
  have zero: "\<And>cell. cell \<in> set cids \<Longrightarrow> cell \<notin> set selected \<Longrightarrow> f cell = 0"
    by (auto simp: selected_def f_def count_list_zero)
  have sub: "set selected \<subseteq> set cids"
    by (auto simp: selected_def)
  have img: "insert 0 (f ` set cids) = insert 0 (f ` set selected)"
  proof
    show "insert 0 (f ` set cids) \<subseteq> insert 0 (f ` set selected)"
      using zero by (smt (verit) image_iff insert_iff subsetI)
    show "insert 0 (f ` set selected) \<subseteq> insert 0 (f ` set cids)"
      using sub by blast
  qed
  have main: "maxCountQuery own now cids tbl = Max (insert 0 (f ` set cids))"
  proof (cases "selected = []")
    case True
    then have "maxCountQuery own now cids tbl = 0"
      by (simp add: run IFNULL_def)
    moreover have "Max (insert 0 (f ` set cids)) = 0"
      unfolding img using True by simp
    ultimately show ?thesis
      by simp
  next
    case False
    then have ne: "map (\<lambda>g. int (length (filter (\<lambda>x. x = g) selected))) (remdups selected) \<noteq> []"
      by simp
    have "maxCountQuery own now cids tbl = Max (f ` set selected)"
      unfolding run MAX_of_Max [OF ne] by (simp add: IFNULL_def groups)
    moreover have "Max (insert 0 (f ` set selected)) = Max (f ` set selected)"
    proof -
      have fin: "finite (f ` set selected)" by simp
      have nonempty: "f ` set selected \<noteq> {}" using False by simp
      obtain x where x: "x \<in> set selected"
        using False by (cases selected) auto
      have "f x \<le> Max (f ` set selected)"
        using fin x by (intro Max_ge) auto
      moreover have "0 \<le> f x"
        by (simp add: f_def)
      ultimately have "0 \<le> Max (f ` set selected)"
        by linarith
      then show ?thesis
        using fin nonempty by (simp add: max_def)
    qed
    ultimately show ?thesis
      unfolding img by simp
  qed
  show ?thesis
    using main by (simp only: f_def cell_id_def)
qed

lemma maxCountQuery_subscriptions:
  assumes "\<forall>r\<in>set tbl. owner r = own \<and> (\<exists>e. ends_at r = Some e \<and> now \<le> e) \<longrightarrow> distinct (cells r)"
  shows "maxCountQuery own now cids tbl =
     Max (insert 0 ((\<lambda>cell. int (length (filter
            (\<lambda>r. owner r = own \<and> (\<exists>e. ends_at r = Some e \<and> now \<le> e) \<and> cell \<in> set (cells r)) tbl)))
         ` set cids))"
proof -
  let ?rs = "filter (\<lambda>r. owner r = own \<and> ge_ts (ends_at r) now) tbl"
  have d: "\<forall>r\<in>set ?rs. distinct (cells r)"
    using assms by (auto simp: ge_ts_iff)
  have "\<And>cell. count_list (concat (map cells ?rs)) cell =
      length (filter (\<lambda>r. owner r = own \<and> (\<exists>e. ends_at r = Some e \<and> now \<le> e) \<and> cell \<in> set (cells r)) tbl)"
    unfolding count_list_concat_distinct [OF d]
    by (simp add: ge_ts_iff conj_commute conj_left_commute cong: conj_cong)
  then show ?thesis
    unfolding maxCountQuery_occurrences by simp
qed

lemma MaxSubscriptionCountInCellsByOwner_None:
  "MaxSubscriptionCountInCellsByOwner None cellUnion own c =
     (Inr (maxCountQuery own (clock c) cellUnion (subscriptions c)), c\<lparr>issued := Suc (issued c)\<rparr>)"
  by (simp add: MaxSubscriptionCountInCellsByOwner_def QueryRowContext_def Let_def map_int64)

lemma MaxSubscriptionCountInCellsByOwner_occurrences:
  "fst (MaxSubscriptionCountInCellsByOwner None cellUnion own c) =
     Inr (Max (insert 0 ((\<lambda>cell. int (count_list
            (concat (map cells
               (filter (\<lambda>r. owner r = own \<and> (\<exists>e. ends_at r = Some e \<and> clock c \<le> e))
                  (subscriptions c)))) cell))
         ` set cellUnion)))"
  by (simp add: MaxSubscriptionCountInCellsByOwner_None maxCountQuery_occurrences ge_ts_iff)

lemma MaxSubscriptionCountInCellsByOwner_distinct_cells:
  assumes "\<forall>r\<in>set (subscriptions c).
             owner r = own \<and> (\<exists>e. ends_at r = Some e \<and> clock c \<le> e) \<longrightarrow> distinct (cells r)"
  shows "fst (MaxSubscriptionCountInCellsByOwner None cellUnion own c) =
     Inr (Max (insert 0 ((\<lambda>cell. int (length (filter
            (\<lambda>r. owner r = own \<and> (\<exists>e. ends_at r = Some e \<and> clock c \<le> e) \<and>
                 cell \<in> set (cells r)) (subscriptions c))))
         ` set cellUnion)))"
  using maxCountQuery_subscriptions [OF assms]
  by (simp add: MaxSubscriptionCountInCellsByOwner_None)










lemma QueryContext_issued: "issued (snd (QueryContext ctx q c)) = Suc (issued c)"
  by (simp add: QueryContext_def Let_def split: option.splits sum.splits prod.splits)

lemma process_issued: "issued (snd (process ctx q c)) = Suc (issued c)"
  using QueryContext_issued [of ctx q c]
  by (cases "QueryContext ctx q c") (auto simp: process_def split: sum.splits)

lemma processOne_issued: "issued (snd (processOne ctx q c)) = Suc (issued c)"
  using process_issued [of ctx q c]
  by (cases "process ctx q c") (auto simp: processOne_def split: sum.splits)

lemma Scan_fields:
  "Scan r = \<lparr>ID = row_id r, Owner = owner r, URL = url r,
             NotificationIndex = notification_index r, Cells = cells r,
             StartTime = starts_at r, EndTime = ends_at r, Version = Some (updated_at r)\<rparr>"
  by (simp add: Scan_def SetCells_id)

lemma map_Scan_fields:
  "map Scan rs = map (\<lambda>r. \<lparr>ID = row_id r, Owner = owner r, URL = url r,
             NotificationIndex = notification_index r, Cells = cells r,
             StartTime = starts_at r, EndTime = ends_at r, Version = Some (updated_at r)\<rparr>) rs"
  by (simp add: Scan_fields)

lemma UpdateNotificationIdxsInCells_safe:
  assumes safe: "\<forall>r\<in>set (subscriptions c).
      (\<exists>e. ends_at r = Some e \<and> clock c \<le> e) \<and> set (cells r) \<inter> set cellUnion \<noteq> {} \<longrightarrow>
      sint (notification_index r) < 2 ^ 63 - 1"
  shows "subscriptions (snd (UpdateNotificationIdxsInCells None cellUnion c)) =
      map (\<lambda>r. if (\<exists>e. ends_at r = Some e \<and> clock c \<le> e) \<and> set (cells r) \<inter> set cellUnion \<noteq> {}
               then r\<lparr>notification_index := notification_index r + 1\<rparr> else r)
        (subscriptions c)"
    and "fst (UpdateNotificationIdxsInCells None cellUnion c) =
      Inr (map (\<lambda>r. \<lparr>ID = row_id r, Owner = owner r, URL = url r,
                      NotificationIndex = notification_index r, Cells = cells r,
                      StartTime = starts_at r, EndTime = ends_at r,
                      Version = Some (updated_at r)\<rparr>)
             (filter (\<lambda>r. (\<exists>e. ends_at r = Some e \<and> clock c \<le> e) \<and>
                           set (cells r) \<inter> set cellUnion \<noteq> {})
                (subscriptions (snd (UpdateNotificationIdxsInCells None cellUnion c)))))"
proof -
  let ?P = "\<lambda>r. (\<exists>e. ends_at r = Some e \<and> clock c \<le> e) \<and> set (cells r) \<inter> set cellUnion \<noteq> {}"
  let ?bump = "\<lambda>r::row. r\<lparr>notification_index := notification_index r + 1\<rparr>"
  have no: "\<not> (\<exists>r\<in>set (subscriptions c). ?P r \<and> sint (notification_index r) = 2 ^ 63 - 1)"
    using safe by fastforce
  note run = UpdateNotificationIdxsInCells_succeeds [OF no]
  show tbl: "subscriptions (snd (UpdateNotificationIdxsInCells None cellUnion c)) =
      map (\<lambda>r. if ?P r then ?bump r else r) (subscriptions c)"
    unfolding run by simp
  have "filter ?P (map (\<lambda>r. if ?P r then ?bump r else r) (subscriptions c)) =
        map ?bump (filter ?P (subscriptions c))"
    by (rule filter_map_bump) simp
  then have "fst (UpdateNotificationIdxsInCells None cellUnion c) =
      Inr (map Scan (filter ?P (subscriptions (snd (UpdateNotificationIdxsInCells None cellUnion c)))))"
    unfolding tbl unfolding run by simp
  then show "fst (UpdateNotificationIdxsInCells None cellUnion c) =
      Inr (map (\<lambda>r. \<lparr>ID = row_id r, Owner = owner r, URL = url r,
                      NotificationIndex = notification_index r, Cells = cells r,
                      StartTime = starts_at r, EndTime = ends_at r,
                      Version = Some (updated_at r)\<rparr>)
             (filter ?P (subscriptions (snd (UpdateNotificationIdxsInCells None cellUnion c)))))"
    by (simp only: map_Scan_fields)
qed


lemma UpdateNotificationIdxsInCells_twice:
  assumes low: "\<forall>r\<in>set (subscriptions c). set (cells r) \<inter> set cellUnion \<noteq> {} \<longrightarrow>
      sint (notification_index r) < 2 ^ 63 - 2"
    and i: "i < length (subscriptions c)"
    and act: "\<exists>e. ends_at (subscriptions c ! i) = Some e \<and> clock c \<le> e \<and> now' \<le> e"
    and ov: "set (cells (subscriptions c ! i)) \<inter> set cellUnion \<noteq> {}"
  shows "sint (notification_index
        (subscriptions
           (snd (UpdateNotificationIdxsInCells None cellUnion
                   ((snd (UpdateNotificationIdxsInCells None cellUnion c))\<lparr>clock := now'\<rparr>))) ! i)) =
        sint (notification_index (subscriptions c ! i)) + 2"
proof -
  let ?P = "\<lambda>now r. (\<exists>e. ends_at r = Some e \<and> now \<le> e) \<and> set (cells r) \<inter> set cellUnion \<noteq> {}"
  let ?bump = "\<lambda>r::row. r\<lparr>notification_index := notification_index r + 1\<rparr>"
  let ?step = "\<lambda>now r. if ?P now r then ?bump r else r"
  let ?c1 = "snd (UpdateNotificationIdxsInCells None cellUnion c)"
  let ?c1' = "?c1\<lparr>clock := now'\<rparr>"
  let ?r = "subscriptions c ! i"
  have safe1: "\<forall>r\<in>set (subscriptions c). ?P (clock c) r \<longrightarrow> sint (notification_index r) < 2 ^ 63 - 1"
    using low by fastforce
  have tbl1: "subscriptions ?c1 = map (?step (clock c)) (subscriptions c)"
    by (rule UpdateNotificationIdxsInCells_safe(1) [OF safe1])
  have safe2: "\<forall>r\<in>set (subscriptions ?c1'). ?P (clock ?c1') r \<longrightarrow>
      sint (notification_index r) < 2 ^ 63 - 1"
  proof
    fix r1
    assume "r1 \<in> set (subscriptions ?c1')"
    then have "r1 \<in> ?step (clock c) ` set (subscriptions c)"
      by (simp add: tbl1)
    then obtain r where r: "r \<in> set (subscriptions c)" and r1: "r1 = ?step (clock c) r"
      by (rule imageE)
    show "?P (clock ?c1') r1 \<longrightarrow> sint (notification_index r1) < 2 ^ 63 - 1"
    proof
      assume "?P (clock ?c1') r1"
      then have "set (cells r) \<inter> set cellUnion \<noteq> {}"
        using r1 by (auto split: if_splits)
      with low r have l: "sint (notification_index r) < 2 ^ 63 - 2" by blast
      then have "sint (notification_index r + 1) = sint (notification_index r) + 1"
        by (intro sint_succ64) simp
      with l show "sint (notification_index r1) < 2 ^ 63 - 1"
        using r1 by (simp split: if_splits)
    qed
  qed
  have tbl2: "subscriptions (snd (UpdateNotificationIdxsInCells None cellUnion ?c1')) =
      map (?step now') (subscriptions ?c1)"
    using UpdateNotificationIdxsInCells_safe(1) [OF safe2] by simp
  from act ov have m1: "?P (clock c) ?r" and m2: "?P now' (?bump ?r)"
    by auto
  have "subscriptions (snd (UpdateNotificationIdxsInCells None cellUnion ?c1')) ! i = ?bump (?bump ?r)"
    using i m1 m2 by (simp add: tbl2 tbl1)
  then have val: "notification_index
      (subscriptions (snd (UpdateNotificationIdxsInCells None cellUnion ?c1')) ! i) =
      notification_index ?r + 1 + 1"
    by simp
  from i have "?r \<in> set (subscriptions c)" by simp
  with low ov have l: "sint (notification_index ?r) < 2 ^ 63 - 2" by blast
  then have s1: "sint (notification_index ?r + 1) = sint (notification_index ?r) + 1"
    by (intro sint_succ64) simp
  with l have "sint (notification_index ?r + 1) < 2 ^ 63 - 1" by simp
  then have "sint (notification_index ?r + 1 + 1) = sint (notification_index ?r + 1) + 1"
    by (rule sint_succ64)
  with s1 show ?thesis
    unfolding val by simp
qed

subsection \<open>Update is a stub\<close>

text \<open>
  C10. \<^verbatim>\<open>UpdateSubscription\<close> rejects every input: whatever the context, the
  subscription and the store, it returns the error built by
  \<^verbatim>\<open>dsserr.Internal("not yet implemented")\<close>, and the store afterwards is the store
  before: no row is written and no statement reaches the executor.
\<close>

theorem UpdateSubscription_not_implemented:
  "UpdateSubscription ctx s c = (Inl (Internal ''not yet implemented''), c)"
  by (simp add: UpdateSubscription_def)

subsection \<open>Point lookup\<close>

text \<open>
  C5. With a live context, \<^verbatim>\<open>GetSubscription(id)\<close> returns, when exactly one row has
  that id, the subscription with that id and with the owner, url, notification index,
  cells, start and end time of that row and its \<^verbatim>\<open>updated_at\<close> as version;
  \<^verbatim>\<open>sql.ErrNoRows\<close> (not found) when no row has it; and, when several rows have it,
  the error \<^verbatim>\<open>query returned n subscriptions\<close> with their number, and none of the
  rows. The relation is left as it was.
\<close>

theorem GetSubscription_one_none_many:
  "(filter (\<lambda>r. row_id r = i) (subscriptions c) = [r] \<longrightarrow>
      fst (GetSubscription None i c) =
        Inr \<lparr>ID = i, Owner = owner r, URL = url r, NotificationIndex = notification_index r,
             Cells = cells r, StartTime = starts_at r, EndTime = ends_at r,
             Version = Some (updated_at r)\<rparr>) \<and>
   (filter (\<lambda>r. row_id r = i) (subscriptions c) = [] \<longrightarrow>
      fst (GetSubscription None i c) = Inl ErrNoRows) \<and>
   (1 < length (filter (\<lambda>r. row_id r = i) (subscriptions c)) \<longrightarrow>
      fst (GetSubscription None i c) =
        Inl (QueryReturned (length (filter (\<lambda>r. row_id r = i) (subscriptions c))))) \<and>
   subscriptions (snd (GetSubscription None i c)) = subscriptions c"
proof -
  have one: "filter (\<lambda>r. row_id r = i) (subscriptions c) = [r] \<longrightarrow>
      fst (GetSubscription None i c) =
        Inr \<lparr>ID = i, Owner = owner r, URL = url r, NotificationIndex = notification_index r,
             Cells = cells r, StartTime = starts_at r, EndTime = ends_at r,
             Version = Some (updated_at r)\<rparr>"
  proof
    assume f: "filter (\<lambda>r. row_id r = i) (subscriptions c) = [r]"
    then have "r \<in> set (filter (\<lambda>r. row_id r = i) (subscriptions c))"
      by simp
    then have "row_id r = i" by simp
    then show "fst (GetSubscription None i c) =
        Inr \<lparr>ID = i, Owner = owner r, URL = url r, NotificationIndex = notification_index r,
             Cells = cells r, StartTime = starts_at r, EndTime = ends_at r,
             Version = Some (updated_at r)\<rparr>"
      using f by (simp add: GetSubscription_def processOne_None SELECT_WHERE_def Scan_fields)
  qed
  have rest: "(filter (\<lambda>r. row_id r = i) (subscriptions c) = [] \<longrightarrow>
      fst (GetSubscription None i c) = Inl ErrNoRows) \<and>
   (1 < length (filter (\<lambda>r. row_id r = i) (subscriptions c)) \<longrightarrow>
      fst (GetSubscription None i c) =
        Inl (QueryReturned (length (filter (\<lambda>r. row_id r = i) (subscriptions c))))) \<and>
   subscriptions (snd (GetSubscription None i c)) = subscriptions c"
    by (simp add: GetSubscription_def processOne_None SELECT_WHERE_def split: list.splits)
  from one rest show ?thesis by (rule conjI)
qed

theorem GetSubscription_one_none_many_witness:
  "fst (GetSubscription None ''A'' store0) =
     Inr \<lparr>ID = ''A'', Owner = ''uss1'', URL = ''https://uss1/a'', NotificationIndex = 0,
          Cells = [1, 2, 3], StartTime = Some 0, EndTime = Some 100, Version = Some 7\<rparr> \<and>
   fst (GetSubscription None ''Z'' store0) = Inl ErrNoRows \<and>
   fst (GetSubscription None ''A'' store_dup) = Inl (QueryReturned 2)"
  using GetSubscription_one_none_many [of "''A''" store0 rowA]
    GetSubscription_one_none_many [of "''Z''" store0]
    GetSubscription_one_none_many [of "''A''" store_dup]
  by (simp add: store0_def store_dup_def rowA_def rowB_def rowX_def)

subsection \<open>Search with no cells\<close>

text \<open>
  C6. \<^verbatim>\<open>SearchSubscriptions\<close> and \<^verbatim>\<open>SearchSubscriptionsByOwner\<close> with an empty cell
  set return the error \<^verbatim>\<open>dsserr.BadRequest("no location provided")\<close>, never a
  result, whatever the context and the store; the store afterwards is the store before,
  and in particular the count of statements handed to the executor has not moved.
\<close>

theorem Search_empty_cells_BadRequest:
  "SearchSubscriptions ctx [] c = (Inl (BadRequest ''no location provided''), c) \<and>
   SearchSubscriptionsByOwner ctx [] own c = (Inl (BadRequest ''no location provided''), c) \<and>
   issued (snd (SearchSubscriptions ctx [] c)) = issued c \<and>
   issued (snd (SearchSubscriptionsByOwner ctx [] own c)) = issued c"
  by (simp add: SearchSubscriptions_def SearchSubscriptionsByOwner_def)

subsection \<open>Validation comes before the write\<close>

text \<open>
  C7. If some cell of the subscription fails \<^verbatim>\<open>geo.ValidateCell\<close>, then
  \<^verbatim>\<open>InsertSubscription\<close> returns the error of the first cell that fails and the store
  afterwards is the store before: no row is written and no statement is handed to the
  executor. Only when every cell is valid does a statement reach the executor. Both hold
  whether the version of the subscription is empty or not.
\<close>

theorem InsertSubscription_validates_before_write:
  "((\<exists>cell\<in>set (Cells s). ValidateCell cell \<noteq> None) \<longrightarrow>
      (\<exists>pre cell post err.
         Cells s = pre @ cell # post \<and> (\<forall>x\<in>set pre. ValidateCell x = None) \<and>
         ValidateCell cell = Some err \<and>
         InsertSubscription ValidateCell ctx s c = (Inl err, c))) \<and>
   ((\<forall>cell\<in>set (Cells s). ValidateCell cell = None) \<longrightarrow>
      issued (snd (InsertSubscription ValidateCell ctx s c)) = Suc (issued c))"
proof (intro conjI impI)
  assume bad: "\<exists>cell\<in>set (Cells s). ValidateCell cell \<noteq> None"
  obtain err where e: "convertCells ValidateCell (Cells s) = Inl err"
  proof (cases "convertCells ValidateCell (Cells s)")
    case (Inl a)
    then show ?thesis using that by blast
  next
    case (Inr b)
    then have "\<forall>x\<in>set (Cells s). ValidateCell x = None"
      by (simp add: convertCells_Inr_iff)
    with bad have False by simp
    then show ?thesis ..
  qed
  then obtain pre cell post where
    "Cells s = pre @ cell # post" "\<forall>x\<in>set pre. ValidateCell x = None" "ValidateCell cell = Some err"
    unfolding convertCells_Inl by blast
  moreover have "InsertSubscription ValidateCell ctx s c = (Inl err, c)"
    using e by (simp add: InsertSubscription_def)
  ultimately show "\<exists>pre cell post err.
         Cells s = pre @ cell # post \<and> (\<forall>x\<in>set pre. ValidateCell x = None) \<and>
         ValidateCell cell = Some err \<and>
         InsertSubscription ValidateCell ctx s c = (Inl err, c)"
    by blast
next
  assume good: "\<forall>cell\<in>set (Cells s). ValidateCell cell = None"
  then have "convertCells ValidateCell (Cells s) = Inr (Cells s)"
    by (rule convertCells_Inr)
  then show "issued (snd (InsertSubscription ValidateCell ctx s c)) = Suc (issued c)"
    by (simp add: InsertSubscription_def processOne_issued split: option.splits)
qed

theorem InsertSubscription_validates_before_write_witness:
  "list_ex (\<lambda>cell. ValidateCell0 cell \<noteq> None) (Cells subNew) \<and>
   InsertSubscription ValidateCell0 None subNew store0 = (Inl (External ''bad cell''), store0) \<and>
   list_all (\<lambda>cell. ValidateCell0 cell = None) (Cells subNew5) \<and>
   issued (snd (InsertSubscription ValidateCell0 None subNew5 store0)) = Suc (issued store0)"
proof -
  have h: "\<exists>cell\<in>set (Cells subNew). ValidateCell0 cell \<noteq> None"
    by (simp add: subNew_def ValidateCell0_def)
  have g: "\<forall>cell\<in>set (Cells subNew5). ValidateCell0 cell = None"
    by (simp add: subNew5_def ValidateCell0_def)
  from InsertSubscription_validates_before_write [of subNew ValidateCell0 None store0] h
  obtain err where "InsertSubscription ValidateCell0 None subNew store0 = (Inl err, store0)"
    and "\<exists>cell. ValidateCell0 cell = Some err"
    by blast
  then have a: "InsertSubscription ValidateCell0 None subNew store0 = (Inl (External ''bad cell''), store0)"
    by (auto simp: ValidateCell0_def split: if_splits)
  have b: "issued (snd (InsertSubscription ValidateCell0 None subNew5 store0)) = Suc (issued store0)"
    using InsertSubscription_validates_before_write [of subNew5 ValidateCell0 None store0] g
    by blast
  from h g a b show ?thesis
    by (simp add: list_ex_iff list_all_iff)
qed

subsection \<open>Delete\<close>

text \<open>
  C3. For a subscription that carries a version and a live context,
  \<^verbatim>\<open>DeleteSubscription\<close> removes exactly the rows whose \<^verbatim>\<open>id\<close>, \<^verbatim>\<open>owner\<close> and
  \<^verbatim>\<open>updated_at\<close> all equal the given id, owner and version, and keeps every other row.
  When one row matches, the result is the subscription with every field of that row as it
  was before the statement, whatever the other fields of the argument are. When no row
  matches (the id is unknown, the owner differs or the version is stale) the result is
  \<^verbatim>\<open>sql.ErrNoRows\<close> and the relation is as it was.
\<close>

theorem DeleteSubscription_conditional:
  assumes "Version s = Some v"
  shows "subscriptions (snd (DeleteSubscription None s c)) =
           filter (\<lambda>r. \<not> (row_id r = ID s \<and> owner r = Owner s \<and> updated_at r = v))
             (subscriptions c) \<and>
         (\<forall>r. filter (\<lambda>r. row_id r = ID s \<and> owner r = Owner s \<and> updated_at r = v)
                 (subscriptions c) = [r] \<longrightarrow>
              fst (DeleteSubscription None s c) =
                Inr \<lparr>ID = row_id r, Owner = owner r, URL = url r,
                     NotificationIndex = notification_index r, Cells = cells r,
                     StartTime = starts_at r, EndTime = ends_at r,
                     Version = Some (updated_at r)\<rparr>) \<and>
         (filter (\<lambda>r. row_id r = ID s \<and> owner r = Owner s \<and> updated_at r = v)
            (subscriptions c) = [] \<longrightarrow>
            fst (DeleteSubscription None s c) = Inl ErrNoRows \<and>
            subscriptions (snd (DeleteSubscription None s c)) = subscriptions c)"
proof -
  let ?P = "\<lambda>r. row_id r = ID s \<and> owner r = Owner s \<and> updated_at r = v"
  have run: "DeleteSubscription None s c =
      (case filter ?P (subscriptions c) of
         [] \<Rightarrow> Inl ErrNoRows
       | [r] \<Rightarrow> Inr \<lparr>ID = row_id r, Owner = owner r, URL = url r,
                     NotificationIndex = notification_index r, Cells = cells r,
                     StartTime = starts_at r, EndTime = ends_at r,
                     Version = Some (updated_at r)\<rparr>
       | _ \<Rightarrow> Inl (QueryReturned (length (filter ?P (subscriptions c)))),
       c\<lparr>issued := Suc (issued c), subscriptions := filter (\<lambda>r. \<not> ?P r) (subscriptions c)\<rparr>)"
    using assms
    by (simp add: DeleteSubscription_def processOne_None DELETE_WHERE_def Scan_fields
        split: list.splits)
  have kept: "filter ?P (subscriptions c) = [] \<Longrightarrow>
      filter (\<lambda>r. \<not> ?P r) (subscriptions c) = subscriptions c"
    by (simp add: filter_empty_conv)
  show ?thesis
    unfolding run using kept by (simp split: list.splits)
qed

theorem DeleteSubscription_conditional_witness:
  "fst (DeleteSubscription None subDeleteA store0) =
     Inr \<lparr>ID = ''A'', Owner = ''uss1'', URL = ''https://uss1/a'', NotificationIndex = 0,
          Cells = [1, 2, 3], StartTime = Some 0, EndTime = Some 100, Version = Some 7\<rparr> \<and>
   subscriptions (snd (DeleteSubscription None subDeleteA store0)) = [rowB, rowX] \<and>
   fst (DeleteSubscription None (subDeleteA\<lparr>Owner := ''uss2''\<rparr>) store0) = Inl ErrNoRows \<and>
   subscriptions (snd (DeleteSubscription None (subDeleteA\<lparr>Owner := ''uss2''\<rparr>) store0)) =
     [rowA, rowB, rowX] \<and>
   fst (DeleteSubscription None (subDeleteA\<lparr>Version := Some 6\<rparr>) store0) = Inl ErrNoRows \<and>
   fst (DeleteSubscription None (subDeleteA\<lparr>ID := ''Z''\<rparr>) store0) = Inl ErrNoRows"
  using DeleteSubscription_conditional [of subDeleteA 7 store0]
    DeleteSubscription_conditional [of "subDeleteA\<lparr>Owner := ''uss2''\<rparr>" 7 store0]
    DeleteSubscription_conditional [of "subDeleteA\<lparr>Version := Some 6\<rparr>" 6 store0]
    DeleteSubscription_conditional [of "subDeleteA\<lparr>ID := ''Z''\<rparr>" 7 store0]
  by (simp add: subDeleteA_def store0_def rowA_def rowB_def rowX_def)

subsection \<open>Insert with a version\<close>



subsection \<open>Search\<close>

text \<open>
  C2. For a non-empty cell set and a live context, \<^verbatim>\<open>SearchSubscriptions\<close> returns
  the subscriptions, with all their fields as stored, of exactly the rows whose \<^verbatim>\<open>ends_at\<close> is present and not before
  the clock and whose cells share at least one cell with the query;
  \<^verbatim>\<open>SearchSubscriptionsByOwner\<close> returns those of them whose owner is the given one.
  Neither changes the relation.
\<close>

theorem Search_returns_active_overlapping:
  assumes "cellUnion \<noteq> []"
  shows "fst (SearchSubscriptions None cellUnion c) =
           Inr (map (\<lambda>r. \<lparr>ID = row_id r, Owner = owner r, URL = url r,
                           NotificationIndex = notification_index r, Cells = cells r,
                           StartTime = starts_at r, EndTime = ends_at r,
                           Version = Some (updated_at r)\<rparr>)
                  (filter (\<lambda>r. (\<exists>e. ends_at r = Some e \<and> clock c \<le> e) \<and>
                                set (cells r) \<inter> set cellUnion \<noteq> {}) (subscriptions c))) \<and>
         fst (SearchSubscriptionsByOwner None cellUnion own c) =
           Inr (map (\<lambda>r. \<lparr>ID = row_id r, Owner = owner r, URL = url r,
                           NotificationIndex = notification_index r, Cells = cells r,
                           StartTime = starts_at r, EndTime = ends_at r,
                           Version = Some (updated_at r)\<rparr>)
                  (filter (\<lambda>r. ((\<exists>e. ends_at r = Some e \<and> clock c \<le> e) \<and>
                                 set (cells r) \<inter> set cellUnion \<noteq> {}) \<and> owner r = own)
                     (subscriptions c))) \<and>
         subscriptions (snd (SearchSubscriptions None cellUnion c)) = subscriptions c \<and>
         subscriptions (snd (SearchSubscriptionsByOwner None cellUnion own c)) = subscriptions c"
proof -
  have p1: "(\<lambda>r. overlaps (cells r) (map int64 cellUnion) \<and> ge_ts (ends_at r) (clock c)) =
            (\<lambda>r. (\<exists>e. ends_at r = Some e \<and> clock c \<le> e) \<and> set (cells r) \<inter> set cellUnion \<noteq> {})"
    by (rule ext) (rule search_pred)
  have p2: "(\<lambda>r. overlaps (cells r) (map int64 cellUnion) \<and> owner r = own \<and> ge_ts (ends_at r) (clock c)) =
            (\<lambda>r. ((\<exists>e. ends_at r = Some e \<and> clock c \<le> e) \<and> set (cells r) \<inter> set cellUnion \<noteq> {}) \<and> owner r = own)"
    by (rule ext) (use search_pred in blast)
  have s1: "SearchSubscriptions None cellUnion c =
      (Inr (map Scan (filter (\<lambda>r. overlaps (cells r) (map int64 cellUnion) \<and> ge_ts (ends_at r) (clock c)) (subscriptions c))),
       c\<lparr>issued := Suc (issued c), subscriptions := subscriptions c\<rparr>)"
    using assms by (simp add: SearchSubscriptions_def process_None SELECT_WHERE_def Let_def)
  have s2: "SearchSubscriptionsByOwner None cellUnion own c =
      (Inr (map Scan (filter (\<lambda>r. overlaps (cells r) (map int64 cellUnion) \<and> owner r = own \<and> ge_ts (ends_at r) (clock c)) (subscriptions c))),
       c\<lparr>issued := Suc (issued c), subscriptions := subscriptions c\<rparr>)"
    using assms by (simp add: SearchSubscriptionsByOwner_def process_None SELECT_WHERE_def Let_def)
  show ?thesis
    unfolding s1 s2 p1 p2 map_Scan_fields by simp
qed

theorem Search_returns_active_overlapping_witness:
  "fst (SearchSubscriptions None [3, 4] store0) =
     Inr [\<lparr>ID = ''A'', Owner = ''uss1'', URL = ''https://uss1/a'', NotificationIndex = 0,
           Cells = [1, 2, 3], StartTime = Some 0, EndTime = Some 100, Version = Some 7\<rparr>,
          \<lparr>ID = ''B'', Owner = ''uss2'', URL = ''https://uss2/b'', NotificationIndex = 4,
           Cells = [4, 5], StartTime = Some 0, EndTime = Some 100, Version = Some 8\<rparr>] \<and>
   fst (SearchSubscriptions None [6] store0) = Inr [] \<and>
   fst (SearchSubscriptionsByOwner None [3, 4] ''uss1'' store0) =
     Inr [\<lparr>ID = ''A'', Owner = ''uss1'', URL = ''https://uss1/a'', NotificationIndex = 0,
           Cells = [1, 2, 3], StartTime = Some 0, EndTime = Some 100, Version = Some 7\<rparr>]"
  using Search_returns_active_overlapping [of "[3, 4]" store0 "''uss1''"]
    Search_returns_active_overlapping [of "[6]" store0 "''uss1''"]
  by (simp add: store0_def rowA_def rowB_def rowX_def)

subsection \<open>Advancing the notification index\<close>

text \<open>
  C1, as the code has it. With a live context, and as long as no row that the statement
  matches holds the largest 64-bit value as its notification index,
  \<^verbatim>\<open>UpdateNotificationIdxsInCells\<close> keeps the number and the order of the rows; a row
  whose \<^verbatim>\<open>ends_at\<close> is present and not before the clock and whose cells share a cell
  with the given ones has its notification index raised by exactly 1 and nothing else
  changed; every other row is unchanged; and the result lists the rows it raised, with
  all their fields as they are afterwards. When some matching row holds the largest
  value, the statement fails with \<^verbatim>\<open>integer out of range\<close> and no row is changed. A
  second call, at a clock reading at which the row is still active, leaves a matching
  row's index raised by 2 in total, provided the rows that share a cell with the given
  ones are at least two below the largest value.
\<close>

theorem UpdateNotificationIdxsInCells_increments:
  "((\<forall>r\<in>set (subscriptions c).
       (\<exists>e. ends_at r = Some e \<and> clock c \<le> e) \<and> set (cells r) \<inter> set cellUnion \<noteq> {} \<longrightarrow>
       sint (notification_index r) < 2 ^ 63 - 1) \<longrightarrow>
    length (subscriptions (snd (UpdateNotificationIdxsInCells None cellUnion c))) =
      length (subscriptions c) \<and>
    (\<forall>i<length (subscriptions c).
       subscriptions (snd (UpdateNotificationIdxsInCells None cellUnion c)) ! i =
         (if (\<exists>e. ends_at (subscriptions c ! i) = Some e \<and> clock c \<le> e) \<and>
             set (cells (subscriptions c ! i)) \<inter> set cellUnion \<noteq> {}
          then (subscriptions c ! i)
                 \<lparr>notification_index := notification_index (subscriptions c ! i) + 1\<rparr>
          else subscriptions c ! i)) \<and>
    (\<forall>i<length (subscriptions c).
       (\<exists>e. ends_at (subscriptions c ! i) = Some e \<and> clock c \<le> e) \<and>
       set (cells (subscriptions c ! i)) \<inter> set cellUnion \<noteq> {} \<longrightarrow>
       sint (notification_index
               (subscriptions (snd (UpdateNotificationIdxsInCells None cellUnion c)) ! i)) =
         sint (notification_index (subscriptions c ! i)) + 1) \<and>
    fst (UpdateNotificationIdxsInCells None cellUnion c) =
      Inr (map (\<lambda>r. \<lparr>ID = row_id r, Owner = owner r, URL = url r,
                      NotificationIndex = notification_index r, Cells = cells r,
                      StartTime = starts_at r, EndTime = ends_at r,
                      Version = Some (updated_at r)\<rparr>)
             (filter (\<lambda>r. (\<exists>e. ends_at r = Some e \<and> clock c \<le> e) \<and>
                           set (cells r) \<inter> set cellUnion \<noteq> {})
                (subscriptions (snd (UpdateNotificationIdxsInCells None cellUnion c)))))) \<and>
   ((\<exists>r\<in>set (subscriptions c).
       ((\<exists>e. ends_at r = Some e \<and> clock c \<le> e) \<and> set (cells r) \<inter> set cellUnion \<noteq> {}) \<and>
       sint (notification_index r) = 2 ^ 63 - 1) \<longrightarrow>
    fst (UpdateNotificationIdxsInCells None cellUnion c) = Inl (External ''integer out of range'') \<and>
    subscriptions (snd (UpdateNotificationIdxsInCells None cellUnion c)) = subscriptions c) \<and>
   ((\<forall>r\<in>set (subscriptions c). set (cells r) \<inter> set cellUnion \<noteq> {} \<longrightarrow>
       sint (notification_index r) < 2 ^ 63 - 2) \<longrightarrow>
    (\<forall>i<length (subscriptions c).
       (\<exists>e. ends_at (subscriptions c ! i) = Some e \<and> clock c \<le> e \<and> now' \<le> e) \<and>
       set (cells (subscriptions c ! i)) \<inter> set cellUnion \<noteq> {} \<longrightarrow>
       sint (notification_index
         (subscriptions
            (snd (UpdateNotificationIdxsInCells None cellUnion
                    ((snd (UpdateNotificationIdxsInCells None cellUnion c))\<lparr>clock := now'\<rparr>))) ! i)) =
         sint (notification_index (subscriptions c ! i)) + 2))"
proof (intro conjI impI)
  assume safe: "\<forall>r\<in>set (subscriptions c).
       (\<exists>e. ends_at r = Some e \<and> clock c \<le> e) \<and> set (cells r) \<inter> set cellUnion \<noteq> {} \<longrightarrow>
       sint (notification_index r) < 2 ^ 63 - 1"
  note tbl = UpdateNotificationIdxsInCells_safe(1) [OF safe]
  show "length (subscriptions (snd (UpdateNotificationIdxsInCells None cellUnion c))) =
      length (subscriptions c)"
    by (simp add: tbl)
  show "\<forall>i<length (subscriptions c).
       subscriptions (snd (UpdateNotificationIdxsInCells None cellUnion c)) ! i =
         (if (\<exists>e. ends_at (subscriptions c ! i) = Some e \<and> clock c \<le> e) \<and>
             set (cells (subscriptions c ! i)) \<inter> set cellUnion \<noteq> {}
          then (subscriptions c ! i)
                 \<lparr>notification_index := notification_index (subscriptions c ! i) + 1\<rparr>
          else subscriptions c ! i)"
    by (simp add: tbl)
  show "\<forall>i<length (subscriptions c).
       (\<exists>e. ends_at (subscriptions c ! i) = Some e \<and> clock c \<le> e) \<and>
       set (cells (subscriptions c ! i)) \<inter> set cellUnion \<noteq> {} \<longrightarrow>
       sint (notification_index
               (subscriptions (snd (UpdateNotificationIdxsInCells None cellUnion c)) ! i)) =
         sint (notification_index (subscriptions c ! i)) + 1"
  proof (intro allI impI)
    fix i
    assume i: "i < length (subscriptions c)"
      and m: "(\<exists>e. ends_at (subscriptions c ! i) = Some e \<and> clock c \<le> e) \<and>
              set (cells (subscriptions c ! i)) \<inter> set cellUnion \<noteq> {}"
    from i have "subscriptions c ! i \<in> set (subscriptions c)" by simp
    with safe m have "sint (notification_index (subscriptions c ! i)) < 2 ^ 63 - 1" by blast
    then have "sint (notification_index (subscriptions c ! i) + 1) =
        sint (notification_index (subscriptions c ! i)) + 1"
      by (rule sint_succ64)
    with i m show "sint (notification_index
               (subscriptions (snd (UpdateNotificationIdxsInCells None cellUnion c)) ! i)) =
         sint (notification_index (subscriptions c ! i)) + 1"
      by (simp add: tbl)
  qed
  show "fst (UpdateNotificationIdxsInCells None cellUnion c) =
      Inr (map (\<lambda>r. \<lparr>ID = row_id r, Owner = owner r, URL = url r,
                      NotificationIndex = notification_index r, Cells = cells r,
                      StartTime = starts_at r, EndTime = ends_at r,
                      Version = Some (updated_at r)\<rparr>)
             (filter (\<lambda>r. (\<exists>e. ends_at r = Some e \<and> clock c \<le> e) \<and>
                           set (cells r) \<inter> set cellUnion \<noteq> {})
                (subscriptions (snd (UpdateNotificationIdxsInCells None cellUnion c)))))"
    by (rule UpdateNotificationIdxsInCells_safe(2) [OF safe])
next
  assume over: "\<exists>r\<in>set (subscriptions c).
       ((\<exists>e. ends_at r = Some e \<and> clock c \<le> e) \<and> set (cells r) \<inter> set cellUnion \<noteq> {}) \<and>
       sint (notification_index r) = 2 ^ 63 - 1"
  note run = UpdateNotificationIdxsInCells_fails [OF over]
  show "fst (UpdateNotificationIdxsInCells None cellUnion c) = Inl (External ''integer out of range'')"
    unfolding run by (simp add: ErrIntegerOutOfRange_def)
  show "subscriptions (snd (UpdateNotificationIdxsInCells None cellUnion c)) = subscriptions c"
    unfolding run by simp
next
  assume low: "\<forall>r\<in>set (subscriptions c). set (cells r) \<inter> set cellUnion \<noteq> {} \<longrightarrow>
       sint (notification_index r) < 2 ^ 63 - 2"
  show "\<forall>i<length (subscriptions c).
       (\<exists>e. ends_at (subscriptions c ! i) = Some e \<and> clock c \<le> e \<and> now' \<le> e) \<and>
       set (cells (subscriptions c ! i)) \<inter> set cellUnion \<noteq> {} \<longrightarrow>
       sint (notification_index
         (subscriptions
            (snd (UpdateNotificationIdxsInCells None cellUnion
                    ((snd (UpdateNotificationIdxsInCells None cellUnion c))\<lparr>clock := now'\<rparr>))) ! i)) =
         sint (notification_index (subscriptions c ! i)) + 2"
    using UpdateNotificationIdxsInCells_twice [OF low] by blast
qed


theorem UpdateNotificationIdxsInCells_increments_witness:
  "subscriptions (snd (UpdateNotificationIdxsInCells None [3] store0)) =
     [rowA\<lparr>notification_index := 1\<rparr>, rowB, rowX] \<and>
   fst (UpdateNotificationIdxsInCells None [3] store0) =
     Inr [\<lparr>ID = ''A'', Owner = ''uss1'', URL = ''https://uss1/a'', NotificationIndex = 1,
           Cells = [1, 2, 3], StartTime = Some 0, EndTime = Some 100, Version = Some 7\<rparr>] \<and>
   fst (UpdateNotificationIdxsInCells None [3] store_max) = Inl (External ''integer out of range'') \<and>
   subscriptions (snd (UpdateNotificationIdxsInCells None [3] store_max)) = [rowA, rowM] \<and>
   sint (notification_index
     (subscriptions
        (snd (UpdateNotificationIdxsInCells None [3]
               ((snd (UpdateNotificationIdxsInCells None [3] store0))\<lparr>clock := 51\<rparr>))) ! 0)) = 2"
proof -
  have s: "subscriptions store0 = [rowA, rowB, rowX]" "subscriptions store0 ! 0 = rowA"
    "subscriptions store0 ! 1 = rowB" "subscriptions store0 ! 2 = rowX"
    "length (subscriptions store0) = 3" "clock store0 = 50"
    by (simp_all add: store0_def)
  have h1: "\<forall>r\<in>set (subscriptions store0).
       (\<exists>e. ends_at r = Some e \<and> clock store0 \<le> e) \<and> set (cells r) \<inter> set [3] \<noteq> {} \<longrightarrow>
       sint (notification_index r) < 2 ^ 63 - 1"
    by (simp add: store0_def rowA_def rowB_def rowX_def)
  have h2: "\<exists>r\<in>set (subscriptions store_max).
       ((\<exists>e. ends_at r = Some e \<and> clock store_max \<le> e) \<and> set (cells r) \<inter> set [3] \<noteq> {}) \<and>
       sint (notification_index r) = 2 ^ 63 - 1"
    by (simp add: store_max_def rowA_def rowM_def)
  have h3: "\<forall>r\<in>set (subscriptions store0). set (cells r) \<inter> set [3] \<noteq> {} \<longrightarrow>
       sint (notification_index r) < 2 ^ 63 - 2"
    by (simp add: store0_def rowA_def rowB_def rowX_def)
  note a = UpdateNotificationIdxsInCells_increments [of store0 "[3]" 51, THEN conjunct1, THEN mp, OF h1]
  note b = UpdateNotificationIdxsInCells_increments [of store_max "[3]" 51,
      THEN conjunct2, THEN conjunct1, THEN mp, OF h2]
  note d = UpdateNotificationIdxsInCells_increments [of store0 "[3]" 51,
      THEN conjunct2, THEN conjunct2, THEN mp, OF h3, rule_format, of 0]
  have l: "length (subscriptions (snd (UpdateNotificationIdxsInCells None [3] store0))) = 3"
    using a [THEN conjunct1] by (simp add: s)
  note n = a [THEN conjunct2, THEN conjunct1, rule_format]
  have n0: "subscriptions (snd (UpdateNotificationIdxsInCells None [3] store0)) ! 0 =
      rowA\<lparr>notification_index := 1\<rparr>"
    using n [of 0] by (simp add: s rowA_def)
  have n1: "subscriptions (snd (UpdateNotificationIdxsInCells None [3] store0)) ! 1 = rowB"
    using n [of 1] by (simp add: s rowB_def)
  have n2: "subscriptions (snd (UpdateNotificationIdxsInCells None [3] store0)) ! 2 = rowX"
    using n [of 2] by (simp add: s rowX_def)
  have "\<forall>i<3. subscriptions (snd (UpdateNotificationIdxsInCells None [3] store0)) ! i =
           [rowA\<lparr>notification_index := 1\<rparr>, rowB, rowX] ! i"
    using n0 n1 n2 by (simp add: less_Suc_eq numeral_3_eq_3 numeral_2_eq_2)
  with l have t: "subscriptions (snd (UpdateNotificationIdxsInCells None [3] store0)) =
     [rowA\<lparr>notification_index := 1\<rparr>, rowB, rowX]"
    by (intro nth_equalityI) simp_all
  have o: "fst (UpdateNotificationIdxsInCells None [3] store0) =
     Inr [\<lparr>ID = ''A'', Owner = ''uss1'', URL = ''https://uss1/a'', NotificationIndex = 1,
           Cells = [1, 2, 3], StartTime = Some 0, EndTime = Some 100, Version = Some 7\<rparr>]"
    using a [THEN conjunct2, THEN conjunct2, THEN conjunct2]
    unfolding t s by (simp add: rowA_def rowB_def rowX_def)
  have e: "fst (UpdateNotificationIdxsInCells None [3] store_max) = Inl (External ''integer out of range'')"
    using b by (rule conjunct1)
  have u: "subscriptions (snd (UpdateNotificationIdxsInCells None [3] store_max)) = [rowA, rowM]"
    using b [THEN conjunct2] by (simp add: store_max_def)
  have w: "sint (notification_index
     (subscriptions
        (snd (UpdateNotificationIdxsInCells None [3]
               ((snd (UpdateNotificationIdxsInCells None [3] store0))\<lparr>clock := 51\<rparr>))) ! 0)) = 2"
    using d by (simp add: s rowA_def)
  from t o e u w show ?thesis by (intro conjI)
qed

text \<open>
  C1 as stated fails: A is active and covers cell 3, but the call for cell 3 on a store in
  which another matching row holds the largest 64-bit value returns
  \<^verbatim>\<open>integer out of range\<close> and leaves the notification index of A at 0.
\<close>

theorem UpdateNotificationIdxsInCells_at_maximum_counterexample:
  "ends_at (subscriptions store_max ! 0) = Some 100 \<and> clock store_max = 50 \<and>
   cells (subscriptions store_max ! 0) = [1, 2, 3] \<and>
   notification_index (subscriptions store_max ! 0) = 0 \<and>
   fst (UpdateNotificationIdxsInCells None [3] store_max) = Inl (External ''integer out of range'') \<and>
   notification_index (subscriptions (snd (UpdateNotificationIdxsInCells None [3] store_max)) ! 0) = 0"
proof -
  have over: "\<exists>r\<in>set (subscriptions store_max).
       ((\<exists>e. ends_at r = Some e \<and> clock store_max \<le> e) \<and> set (cells r) \<inter> set [3] \<noteq> {}) \<and>
       sint (notification_index r) = 2 ^ 63 - 1"
    by (simp add: store_max_def rowA_def rowM_def)
  have run: "UpdateNotificationIdxsInCells None [3] store_max =
      (Inl ErrIntegerOutOfRange, store_max\<lparr>issued := Suc (issued store_max)\<rparr>)"
    by (rule UpdateNotificationIdxsInCells_fails [OF over])
  show ?thesis
    unfolding run by (simp add: store_max_def rowA_def ErrIntegerOutOfRange_def)
qed

subsection \<open>The quota count\<close>

text \<open>
  C4. \<^verbatim>\<open>MaxSubscriptionCountInCellsByOwner\<close> counts the rows that \<^verbatim>\<open>unnest(cells)\<close>
  yields, one for every entry of a \<^verbatim>\<open>cells\<close> array, so a subscription that lists a cell
  twice counts twice for that cell. \<^verbatim>\<open>InsertSubscription\<close> stores the cells as they are
  given: inserting one subscription of owner uss1 with the cells 10, 10 into an empty
  store leaves one row, one subscription of that owner covers cell 10, and the count for
  the cells \<open>[10]\<close> is 2. (By \<open>MaxSubscriptionCountInCellsByOwner_distinct_cells\<close> the
  count is the maximal number of subscriptions per cell whenever no active subscription
  of the owner lists a cell twice.)
\<close>

theorem MaxSubscriptionCountInCellsByOwner_repeated_cell:
  "fst (InsertSubscription ValidateCell0 None subTwice store_empty) =
     Inr (subTwice\<lparr>Version := Some 60\<rparr>) \<and>
   subscriptions (snd (InsertSubscription ValidateCell0 None subTwice store_empty)) = [rowT] \<and>
   length (filter (\<lambda>r. owner r = ''uss1'' \<and> ge_ts (ends_at r) 50 \<and> 10 \<in> set (cells r)) [rowT]) = 1 \<and>
   fst (MaxSubscriptionCountInCellsByOwner None [10] ''uss1''
          (snd (InsertSubscription ValidateCell0 None subTwice store_empty))) = Inr 2"
proof -
  have conv: "convertCells ValidateCell0 (Cells subTwice) = Inr [10, 10]"
    by (simp add: subTwice_def ValidateCell0_def int64_def)
  have ins: "InsertSubscription ValidateCell0 None subTwice store_empty =
      (Inr (Scan rowT), store_empty\<lparr>issued := 1, subscriptions := [rowT]\<rparr>)"
    using conv
    by (simp add: InsertSubscription_def subTwice_def processOne_None insertQuery_def
        INSERT_VALUES_def values_row_def store_empty_def rowT_def)
  have scan: "Scan rowT = subTwice\<lparr>Version := Some 60\<rparr>"
    by (simp add: Scan_def rowT_def subTwice_def SetCells_id)
  have cnt: "maxCountQuery ''uss1'' 50 [10] [rowT] = 2"
    by (simp add: maxCountQuery_def rowT_def ge_ts_def ANY_def IFNULL_def Let_def)
  have one: "length (filter (\<lambda>r. owner r = ''uss1'' \<and> ge_ts (ends_at r) 50 \<and> 10 \<in> set (cells r)) [rowT]) = 1"
    by (simp add: rowT_def ge_ts_def)
  have f1: "fst (InsertSubscription ValidateCell0 None subTwice store_empty) =
      Inr (subTwice\<lparr>Version := Some 60\<rparr>)"
    by (simp add: ins scan)
  have f2: "subscriptions (snd (InsertSubscription ValidateCell0 None subTwice store_empty)) = [rowT]"
    by (simp add: ins)
  have f3: "clock (snd (InsertSubscription ValidateCell0 None subTwice store_empty)) = 50"
    unfolding ins by (simp add: store_empty_def)
  have f4: "fst (MaxSubscriptionCountInCellsByOwner None [10] ''uss1''
          (snd (InsertSubscription ValidateCell0 None subTwice store_empty))) = Inr 2"
    by (simp add: MaxSubscriptionCountInCellsByOwner_None f2 f3 cnt)
  from f1 f2 one f4 show ?thesis
    by (intro conjI)
qed

subsection \<open>What changes a notification index\<close>




end
